theory Spec2Isabelle
  imports Main "HOL-Library.Word"
begin

section \<open>JavaScript values used by the stream route\<close>

text \<open>
  The route \<^verbatim>\<open>GET /api/videos/stream/:id\<close> of \<^verbatim>\<open>backend/routes/videos.js\<close> computes with
  JavaScript numbers that are \<^verbatim>\<open>NaN\<close>, an infinity, or an integer-valued double: the
  results of \<^verbatim>\<open>parseInt(_, 10)\<close>, the size of a file, and sums and differences of those.
  An integer is a double as it stands up to \<open>2 ^ 53\<close> in magnitude; beyond, it is rounded
  to the nearest double (ties to the even mantissa), and to an infinity from
  \<open>2 ^ 1024 - 2 ^ 970\<close> on.
\<close>

datatype js_num = NaN | Num int | Infinity | NegInfinity

function bit_length :: "int \<Rightarrow> nat" where
  "bit_length n = (if n \<le> 0 then 0 else Suc (bit_length (n div 2)))"
  by pat_completeness auto
termination
  by (relation "measure nat") auto

declare bit_length.simps [simp del]

text \<open>The nearest number with a mantissa of 53 bits.\<close>

definition round_mantissa :: "int \<Rightarrow> int" where
  "round_mantissa n =
     (let k = bit_length n - 53; q = n div 2 ^ k; r = n mod 2 ^ k
      in if 2 * r > 2 ^ k \<or> (2 * r = 2 ^ k \<and> odd q) then (q + 1) * 2 ^ k else q * 2 ^ k)"

text \<open>The Number value of a mathematical integer.\<close>

definition js_number :: "int \<Rightarrow> js_num" where
  "js_number i =
     (if \<bar>i\<bar> \<le> 2 ^ 53 then Num i
      else if \<bar>i\<bar> \<ge> 2 ^ 1024 - 2 ^ 970 then (if i < 0 then NegInfinity else Infinity)
      else Num (sgn i * round_mantissa \<bar>i\<bar>))"

fun js_negate :: "js_num \<Rightarrow> js_num" where
  "js_negate NaN = NaN"
| "js_negate (Num a) = Num (- a)"
| "js_negate Infinity = NegInfinity"
| "js_negate NegInfinity = Infinity"

fun js_plus :: "js_num \<Rightarrow> js_num \<Rightarrow> js_num" where
  "js_plus (Num a) (Num b) = js_number (a + b)"
| "js_plus NaN _ = NaN"
| "js_plus _ NaN = NaN"
| "js_plus Infinity NegInfinity = NaN"
| "js_plus NegInfinity Infinity = NaN"
| "js_plus Infinity _ = Infinity"
| "js_plus _ Infinity = Infinity"
| "js_plus NegInfinity _ = NegInfinity"
| "js_plus _ NegInfinity = NegInfinity"

definition js_minus :: "js_num \<Rightarrow> js_num \<Rightarrow> js_num" where
  "js_minus a b = js_plus a (js_negate b)"

text \<open>\<^verbatim>\<open>a > b\<close> on numbers: false as soon as one side is \<^verbatim>\<open>NaN\<close>.\<close>

fun js_gt :: "js_num \<Rightarrow> js_num \<Rightarrow> bool" where
  "js_gt NaN _ = False"
| "js_gt _ NaN = False"
| "js_gt (Num a) (Num b) = (a > b)"
| "js_gt Infinity Infinity = False"
| "js_gt Infinity _ = True"
| "js_gt NegInfinity _ = False"
| "js_gt (Num a) NegInfinity = True"
| "js_gt (Num a) Infinity = False"

subsection \<open>Number to string, as a template literal renders it\<close>

definition digit_char :: "nat \<Rightarrow> char" where
  "digit_char d = ''0123456789'' ! d"

function digits10 :: "nat \<Rightarrow> string" where
  "digits10 n = (if n < 10 then [digit_char n] else digits10 (n div 10) @ [digit_char (n mod 10)])"
  by pat_completeness auto
termination
  by (relation "measure (\<lambda>n. n)") auto

declare digits10.simps [simp del]

text \<open>
  Plain decimal digits are what a template literal writes for an integer below
  \<open>10 ^ 21\<close>; the handler writes a header from safe integers and infinities only.
\<close>

fun toString :: "js_num \<Rightarrow> string" where
  "toString NaN = ''NaN''"
| "toString (Num i) = (if i < 0 then CHR ''-'' # digits10 (nat (- i)) else digits10 (nat i))"
| "toString Infinity = ''Infinity''"
| "toString NegInfinity = ''-Infinity''"

subsection \<open>\<^verbatim>\<open>parseInt(s, 10)\<close>\<close>

text \<open>
  ECMAScript \<^verbatim>\<open>parseInt\<close> with radix 10: leading white space is dropped, one sign is
  read, then the longest run of decimal digits; no digit gives \<^verbatim>\<open>NaN\<close>, and the
  result is the Number value of the digits, an infinity for a run of 310 digits or
  so. Header values reach the handler as Latin-1 text, where the white space
  characters are TAB, LF, VT, FF, CR, SPACE and NBSP.
\<close>

definition isWhiteSpace :: "char \<Rightarrow> bool" where
  "isWhiteSpace c = (of_char c \<in> {9, 10, 11, 12, 13, 32, 160 :: nat})"

definition isDigit :: "char \<Rightarrow> bool" where
  "isDigit c = (48 \<le> (of_char c :: nat) \<and> (of_char c :: nat) \<le> 57)"

definition digitVal :: "char \<Rightarrow> int" where
  "digitVal c = of_char c - 48"

definition digitsVal :: "string \<Rightarrow> int" where
  "digitsVal ds = foldl (\<lambda>acc c. acc * 10 + digitVal c) 0 ds"

definition parseInt10 :: "string \<Rightarrow> js_num" where
  "parseInt10 str =
     (let s = dropWhile isWhiteSpace str;
          neg = (s \<noteq> [] \<and> hd s = CHR ''-'');
          s' = (if s \<noteq> [] \<and> (hd s = CHR ''+'' \<or> hd s = CHR ''-'') then tl s else s);
          z = takeWhile isDigit s'
      in if z = [] then NaN
         else js_number ((if neg then - 1 else 1) * digitsVal z))"

subsection \<open>\<^verbatim>\<open>String.prototype.replace\<close> and \<^verbatim>\<open>split\<close>\<close>

text \<open>
  \<^verbatim>\<open>str.replace(/bytes=/, "")\<close>: the regular expression has no flag, so the first
  occurrence of the literal text is removed, wherever it stands.
\<close>

fun replace_first :: "string \<Rightarrow> string \<Rightarrow> string" where
  "replace_first pat [] = []"
| "replace_first pat (c # cs) =
     (if take (length pat) (c # cs) = pat then drop (length pat) (c # cs)
      else c # replace_first pat cs)"

text \<open>\<^verbatim>\<open>str.split("-")\<close>: the empty string splits into one empty part.\<close>

fun split_on :: "char \<Rightarrow> string \<Rightarrow> string list" where
  "split_on d [] = [[]]"
| "split_on d (c # cs) =
     (if c = d then [] # split_on d cs
      else (case split_on d cs of
              [] \<Rightarrow> [[c]]
            | p # ps \<Rightarrow> (c # p) # ps))"

text \<open>
  \<^verbatim>\<open>parts[i]\<close> is \<^verbatim>\<open>undefined\<close> past the end of the array; \<^verbatim>\<open>undefined\<close> and the empty
  string are the falsy values a part can take.
\<close>

definition part :: "string list \<Rightarrow> nat \<Rightarrow> string option" where
  "part parts i = (if i < length parts then Some (parts ! i) else None)"

fun truthy :: "string option \<Rightarrow> bool" where
  "truthy None = False"
| "truthy (Some s) = (s \<noteq> [])"

text \<open>\<^verbatim>\<open>parseInt(undefined, 10)\<close> converts its argument to the text "undefined": \<^verbatim>\<open>NaN\<close>.\<close>

fun parseInt_part :: "string option \<Rightarrow> js_num" where
  "parseInt_part None = NaN"
| "parseInt_part (Some s) = parseInt10 s"

section \<open>The file stream of the Node runtime\<close>

type_synonym bytes = "8 word list"

datatype js_error = ERR_OUT_OF_RANGE | TypeError | CastError

definition MAX_SAFE_INTEGER :: int where
  "MAX_SAFE_INTEGER = 2 ^ 53 - 1"

text \<open>
  \<^verbatim>\<open>fs.createReadStream(path, { start, end })\<close> belongs to the Node runtime (the
  repository asks for Node 16 or later). Its constructor checks \<open>start\<close>, and checks
  \<open>end\<close> unless \<open>end\<close> is \<^verbatim>\<open>Infinity\<close>, its own default for reading to the end of the
  file: a checked position must be an integer in \<open>[0, 2 ^ 53 - 1]\<close>, and a checked
  \<open>end\<close> must not be below \<open>start\<close>; otherwise the constructor throws. The stream
  delivers the bytes at positions \<open>start\<close> to \<open>end\<close>, both included, and stops at the
  end of the file.
\<close>

fun checkPosition :: "js_num \<Rightarrow> bool" where
  "checkPosition (Num p) = (0 \<le> p \<and> p \<le> MAX_SAFE_INTEGER)"
| "checkPosition _ = False"

definition createReadStream :: "bytes \<Rightarrow> js_num \<Rightarrow> js_num \<Rightarrow> js_error + bytes" where
  "createReadStream content start end =
     (if \<not> checkPosition start then Inl ERR_OUT_OF_RANGE
      else if end = Infinity then
        (case start of
           Num s \<Rightarrow> Inr (drop (nat s) content)
         | _ \<Rightarrow> Inl ERR_OUT_OF_RANGE)
      else if \<not> checkPosition end then Inl ERR_OUT_OF_RANGE
      else if js_gt start end then Inl ERR_OUT_OF_RANGE
      else (case (start, end) of
              (Num s, Num e) \<Rightarrow> Inr (take (nat (e - s + 1)) (drop (nat s) content))
            | _ \<Rightarrow> Inl ERR_OUT_OF_RANGE))"

section \<open>Documents, requests and responses\<close>

record course =
  enrolledStudents :: "string list"

text \<open>
  A video document after \<^verbatim>\<open>populate('course', ...)\<close>: the course is \<open>None\<close> when the
  referenced course document no longer exists. \<open>fileSize\<close> is the size recorded at
  upload; \<open>mimeType\<close> is \<open>None\<close> when the field is missing.
\<close>

record video =
  filePath :: string
  fileSize :: nat
  mimeType :: "string option"
  course :: "course option"
  views :: nat

record user =
  user_id :: string
  role :: string

record request =
  params_id :: string
  req_user :: user
  headers_range :: "string option"

text \<open>
  The video collection, keyed by the text of each document's ObjectId, the files on
  disk, and the ObjectId cast of the installed database driver: the texts it accepts
  as an id. Every version accepts 24 hexadecimal digits; which other texts are
  accepted depends on the version.
\<close>

record store =
  videos :: "string \<rightharpoonup> video"
  disk :: "string \<rightharpoonup> bytes"
  castObjectId :: "string \<Rightarrow> bool"

datatype header_value = HStr string | HNum js_num

datatype body = Json bool string | Piped bytes

record response =
  status :: nat
  head :: "(string \<times> header_value) list"
  body :: body

definition json_error :: "nat \<Rightarrow> string \<Rightarrow> response" where
  "json_error code message = \<lparr>status = code, head = [], body = Json False message\<rparr>"

text \<open>The file bytes a response carries: none when the body is a JSON error.\<close>

fun streamed :: "response \<Rightarrow> bytes" where
  "streamed r = (case body r of Piped bs \<Rightarrow> bs | Json _ _ \<Rightarrow> [])"

section \<open>The route handler\<close>

text \<open>Lines 143 to 146 of the handler; \<open>statSize\<close> is \<^verbatim>\<open>stat.size\<close>, the handler's \<^verbatim>\<open>fileSize\<close>.\<close>

definition range_parts :: "string \<Rightarrow> string list" where
  "range_parts rangeHeader = split_on CHR ''-'' (replace_first ''bytes='' rangeHeader)"

definition range_start :: "string \<Rightarrow> js_num" where
  "range_start rangeHeader = parseInt_part (part (range_parts rangeHeader) 0)"

definition range_end :: "string \<Rightarrow> int \<Rightarrow> js_num" where
  "range_end rangeHeader statSize =
     (if truthy (part (range_parts rangeHeader) 1)
      then parseInt_part (part (range_parts rangeHeader) 1)
      else Num (statSize - 1))"

definition chunksize :: "js_num \<Rightarrow> js_num \<Rightarrow> js_num" where
  "chunksize start end = js_plus (js_minus end start) (Num 1)"

text \<open>\<^verbatim>\<open>video.mimeType || 'video/mp4'\<close>\<close>

definition content_type :: "video \<Rightarrow> string" where
  "content_type v = (if truthy (mimeType v) then the (mimeType v) else ''video/mp4'')"

text \<open>
  The body of \<^verbatim>\<open>if (range) ... else ...\<close>: either a response whose headers are written
  and whose body is piped from the file, or the exception thrown before
  \<^verbatim>\<open>writeHead\<close>. \<open>the\<close> is applied under \<open>truthy\<close> only, which holds for no \<open>None\<close>.
\<close>

definition send_video :: "video \<Rightarrow> bytes \<Rightarrow> string option \<Rightarrow> js_error + response" where
  "send_video v content rangeHeader =
     (let statSize = int (length content) in
      if truthy rangeHeader then
        (let start = range_start (the rangeHeader);
             end = range_end (the rangeHeader) statSize
         in case createReadStream content start end of
              Inl err \<Rightarrow> Inl err
            | Inr file \<Rightarrow>
                Inr \<lparr>status = 206,
                     head = [(''Content-Range'',
                                HStr (''bytes '' @ toString start @ ''-'' @ toString end
                                      @ ''/'' @ toString (Num statSize))),
                             (''Accept-Ranges'', HStr ''bytes''),
                             (''Content-Length'', HNum (chunksize start end)),
                             (''Content-Type'', HStr (content_type v))],
                     body = Piped file\<rparr>)
      else
        Inr \<lparr>status = 200,
             head = [(''Content-Length'', HNum (Num statSize)),
                     (''Content-Type'', HStr (content_type v))],
             body = Piped content\<rparr>)"

text \<open>\<^verbatim>\<open>Video.findByIdAndUpdate(id, { $inc: { views: 1 } }).exec()\<close>, as completed.\<close>

definition inc_views :: "store \<Rightarrow> string \<Rightarrow> store" where
  "inc_views st vid =
     (case videos st vid of
        None \<Rightarrow> st
      | Some v \<Rightarrow> st\<lparr>videos := (videos st)(vid \<mapsto> v\<lparr>views := views v + 1\<rparr>)\<rparr>)"

definition isEnrolled :: "course \<Rightarrow> user \<Rightarrow> bool" where
  "isEnrolled c u = list_ex (\<lambda>studentId. studentId = user_id u) (enrolledStudents c)"

definition isAdmin :: "user \<Rightarrow> bool" where
  "isAdmin u = (role u = ''admin'')"

text \<open>
  \<^verbatim>\<open>await Video.findById(id)\<close>: the document, \<^verbatim>\<open>null\<close>, or a rejected query. An id
  that matches a document is the text of an ObjectId; for an id that matches none, the
  cast decides: the query is rejected with a CastError when the id cannot be cast, and
  yields \<^verbatim>\<open>null\<close> when it can.
\<close>

definition findById :: "store \<Rightarrow> string \<Rightarrow> js_error + video option" where
  "findById st vid =
     (if videos st vid = None \<and> \<not> castObjectId st vid then Inl CastError
      else Inr (videos st vid))"

text \<open>
  The handler after \<^verbatim>\<open>authMiddleware\<close> has set \<^verbatim>\<open>req.user\<close>. Every exception inside
  the \<^verbatim>\<open>try\<close> block ends in the \<^verbatim>\<open>catch\<close> block's 500 response: a rejected
  query, reading \<^verbatim>\<open>enrolledStudents\<close> of a course that was not populated, and a file
  stream that refuses its positions.
\<close>

definition stream_route :: "store \<Rightarrow> request \<Rightarrow> response \<times> store" where
  "stream_route st req =
     (case findById st (params_id req) of
        Inl err \<Rightarrow> (json_error 500 ''Error del servidor'', st)
      | Inr None \<Rightarrow> (json_error 404 ''Video no encontrado'', st)
      | Inr (Some v) \<Rightarrow>
          (case course v of
             None \<Rightarrow> (json_error 500 ''Error del servidor'', st)
           | Some c \<Rightarrow>
               if \<not> isEnrolled c (req_user req) \<and> \<not> isAdmin (req_user req)
               then (json_error 403 ''No tienes acceso a este video'', st)
               else
                 (case disk st (filePath v) of
                    None \<Rightarrow> (json_error 404 ''Archivo de video no encontrado'', st)
                  | Some content \<Rightarrow>
                      (case send_video v content (headers_range req) of
                         Inl err \<Rightarrow> (json_error 500 ''Error del servidor'', st)
                       | Inr res \<Rightarrow> (res, inc_views st (params_id req))))))"

section \<open>Clients and sample data\<close>

text \<open>
  A client that sends its requests one after the other: each request meets the store
  that the previous one left behind.
\<close>

fun serve_all :: "store \<Rightarrow> request list \<Rightarrow> response list" where
  "serve_all st [] = []"
| "serve_all st (req # reqs) =
     (case stream_route st req of (res, st') \<Rightarrow> res # serve_all st' reqs)"

text \<open>
  The ranges \<open>(s, e)\<close> of a list tile the positions \<open>from, ..., len - 1\<close> in order,
  without gap or overlap.
\<close>

fun tiles :: "nat \<Rightarrow> nat \<Rightarrow> (nat \<times> nat) list \<Rightarrow> bool" where
  "tiles from len [] = (from = len)"
| "tiles from len ((s, e) # rs) = (s = from \<and> s \<le> e \<and> e < len \<and> tiles (Suc e) len rs)"

text \<open>The handler reads the range \<open>(s, e)\<close> from the header of a request.\<close>

definition asks_range :: "nat \<Rightarrow> request \<Rightarrow> nat \<times> nat \<Rightarrow> bool" where
  "asks_range len req r =
     (case headers_range req of
        None \<Rightarrow> False
      | Some h \<Rightarrow> range_start h = Num (int (fst r)) \<and> range_end h (int len) = Num (int (snd r)))"

text \<open>The header a player sends for the range \<open>(s, e)\<close>.\<close>

definition range_header :: "nat \<Rightarrow> nat \<Rightarrow> string" where
  "range_header s e = ''bytes='' @ digits10 s @ ''-'' @ digits10 e"

text \<open>
  Sample data: one course, four videos, three files on disk, three users, and a driver
  that casts the texts of 24 hexadecimal digits and no other.
\<close>

definition isHexDigit :: "char \<Rightarrow> bool" where
  "isHexDigit c = (c \<in> set ''0123456789abcdefABCDEF'')"

definition isHexId :: "string \<Rightarrow> bool" where
  "isHexId s = (length s = 24 \<and> list_all isHexDigit s)"

abbreviation id_v0 :: string where "id_v0 \<equiv> ''64f1a2b3c4d5e6f7a8b9c0d0''"
abbreviation id_v1 :: string where "id_v1 \<equiv> ''64f1a2b3c4d5e6f7a8b9c0d1''"
abbreviation id_v2 :: string where "id_v2 \<equiv> ''64f1a2b3c4d5e6f7a8b9c0d2''"
abbreviation id_v3 :: string where "id_v3 \<equiv> ''64f1a2b3c4d5e6f7a8b9c0d3''"
abbreviation id_v4 :: string where "id_v4 \<equiv> ''64f1a2b3c4d5e6f7a8b9c0d4''"

definition ex_course :: course where
  "ex_course = \<lparr>enrolledStudents = [''u1'', ''u2'']\<rparr>"

definition ex_content10 :: bytes where
  "ex_content10 = [0x10, 0x11, 0x12, 0x13, 0x14, 0x15, 0x16, 0x17, 0x18, 0x19]"

definition ex_content100 :: bytes where
  "ex_content100 = replicate 50 0x2A @ replicate 50 0x2B"

definition ex_video :: "string \<Rightarrow> nat \<Rightarrow> string option \<Rightarrow> video" where
  "ex_video p n m = \<lparr>filePath = p, fileSize = n, mimeType = m, course = Some ex_course, views = 7\<rparr>"

definition ex_store :: store where
  "ex_store =
     \<lparr>videos = [id_v1 \<mapsto> ex_video ''/uploads/videos/a.mp4'' 10 (Some ''video/webm''),
                id_v2 \<mapsto> ex_video ''/uploads/videos/b.mp4'' 100 None,
                id_v3 \<mapsto> ex_video ''/uploads/videos/c.mp4'' 0 (Some []),
                id_v4 \<mapsto> ex_video ''/uploads/videos/d.mp4'' 1000 (Some ''video/mp4'')],
      disk = [''/uploads/videos/a.mp4'' \<mapsto> ex_content10,
              ''/uploads/videos/b.mp4'' \<mapsto> ex_content100,
              ''/uploads/videos/c.mp4'' \<mapsto> []],
      castObjectId = isHexId\<rparr>"

definition ex_student :: user where
  "ex_student = \<lparr>user_id = ''u2'', role = ''student''\<rparr>"

definition ex_outsider :: user where
  "ex_outsider = \<lparr>user_id = ''u9'', role = ''student''\<rparr>"

definition ex_admin :: user where
  "ex_admin = \<lparr>user_id = ''a1'', role = ''admin''\<rparr>"

definition ex_request :: "string \<Rightarrow> user \<Rightarrow> string option \<Rightarrow> request" where
  "ex_request vid u h = \<lparr>params_id = vid, req_user = u, headers_range = h\<rparr>"

text \<open>A Range header whose end is a run of 310 nines, beyond every finite double.\<close>

definition ex_range_open :: "nat \<Rightarrow> string" where
  "ex_range_open s = ''bytes='' @ digits10 s @ ''-'' @ replicate 310 CHR ''9''"

section \<open>Facts about the building blocks\<close>

lemma js_number_exact: "\<bar>i\<bar> \<le> 2 ^ 53 \<Longrightarrow> js_number i = Num i"
  by (simp add: js_number_def)

lemma chunksize_safe:
  assumes "0 \<le> s" "s \<le> e" "e \<le> MAX_SAFE_INTEGER"
  shows "chunksize (Num s) (Num e) = Num (e - s + 1)"
proof -
  from assms have "\<bar>e - s\<bar> \<le> 2 ^ 53" and "\<bar>e - s + 1\<bar> \<le> 2 ^ 53"
    by (simp_all add: MAX_SAFE_INTEGER_def)
  then show ?thesis
    by (simp add: chunksize_def js_minus_def js_number_exact)
qed

lemma chunksize_open: "chunksize (Num s) Infinity = Infinity"
  by (simp add: chunksize_def js_minus_def)

lemma createReadStream_ok:
  "0 \<le> s \<Longrightarrow> s \<le> e \<Longrightarrow> e \<le> MAX_SAFE_INTEGER \<Longrightarrow>
   createReadStream content (Num s) (Num e) = Inr (take (nat (e - s + 1)) (drop (nat s) content))"
  by (simp add: createReadStream_def)

lemma createReadStream_open:
  "0 \<le> s \<Longrightarrow> s \<le> MAX_SAFE_INTEGER \<Longrightarrow>
   createReadStream content (Num s) Infinity = Inr (drop (nat s) content)"
  by (simp add: createReadStream_def)

lemma createReadStream_rejects:
  assumes "\<not> (\<exists>s. start = Num s \<and> 0 \<le> s \<and> s \<le> MAX_SAFE_INTEGER \<and>
              (end = Infinity \<or> (\<exists>e. end = Num e \<and> s \<le> e \<and> e \<le> MAX_SAFE_INTEGER)))"
  shows "createReadStream content start end = Inl ERR_OUT_OF_RANGE"
  using assms by (cases start; cases "end") (auto simp: createReadStream_def)

lemma send_video_full:
  "\<not> truthy h \<Longrightarrow>
   send_video v content h =
     Inr \<lparr>status = 200,
          head = [(''Content-Length'', HNum (Num (int (length content)))),
                  (''Content-Type'', HStr (content_type v))],
          body = Piped content\<rparr>"
  by (simp add: send_video_def)

lemma send_video_partial:
  assumes "h \<noteq> []" "range_start h = Num s" "range_end h (int (length content)) = Num e"
    and "0 \<le> s" "s \<le> e" "e \<le> MAX_SAFE_INTEGER"
  shows "send_video v content (Some h) =
     Inr \<lparr>status = 206,
          head = [(''Content-Range'',
                     HStr (''bytes '' @ toString (Num s) @ ''-'' @ toString (Num e)
                           @ ''/'' @ toString (Num (int (length content))))),
                  (''Accept-Ranges'', HStr ''bytes''),
                  (''Content-Length'', HNum (Num (e - s + 1))),
                  (''Content-Type'', HStr (content_type v))],
          body = Piped (take (nat (e - s + 1)) (drop (nat s) content))\<rparr>"
  using assms by (simp add: send_video_def createReadStream_ok chunksize_safe Let_def)

lemma send_video_open:
  assumes "h \<noteq> []" "range_start h = Num s" "range_end h (int (length content)) = Infinity"
    and "0 \<le> s" "s \<le> MAX_SAFE_INTEGER"
  shows "send_video v content (Some h) =
     Inr \<lparr>status = 206,
          head = [(''Content-Range'',
                     HStr (''bytes '' @ toString (Num s) @ ''-'' @ toString Infinity
                           @ ''/'' @ toString (Num (int (length content))))),
                  (''Accept-Ranges'', HStr ''bytes''),
                  (''Content-Length'', HNum Infinity),
                  (''Content-Type'', HStr (content_type v))],
          body = Piped (drop (nat s) content)\<rparr>"
  using assms by (simp add: send_video_def createReadStream_open chunksize_open Let_def)

lemma send_video_throws:
  assumes "h \<noteq> []"
    and "createReadStream content (range_start h) (range_end h (int (length content))) = Inl err"
  shows "send_video v content (Some h) = Inl err"
  using assms by (simp add: send_video_def Let_def)

lemma send_video_status:
  "send_video v content h = Inr res \<Longrightarrow> status res = 200 \<or> status res = 206"
  by (auto simp: send_video_def Let_def split: if_splits sum.splits)

lemma send_video_content_type:
  "send_video v content h = Inr res \<Longrightarrow>
   map_of (head res) ''Content-Type'' = Some (HStr (content_type v))"
  by (auto simp: send_video_def Let_def split: if_splits sum.splits)

lemma stream_route_granted:
  assumes "videos st (params_id req) = Some v" "course v = Some c"
    and "isEnrolled c (req_user req) \<or> isAdmin (req_user req)"
    and "disk st (filePath v) = Some content"
  shows "stream_route st req =
     (case send_video v content (headers_range req) of
        Inl err \<Rightarrow> (json_error 500 ''Error del servidor'', st)
      | Inr res \<Rightarrow> (res, inc_views st (params_id req)))"
  using assms by (auto simp: stream_route_def findById_def)

lemma range_start_empty: "range_start [] = NaN"
  by (simp add: range_start_def range_parts_def part_def parseInt10_def)

lemma range_start_Num_nonempty: "range_start h = Num s \<Longrightarrow> h \<noteq> []"
  using range_start_empty by auto

lemma split_on_nonempty: "split_on d s \<noteq> []"
  by (induction s) (auto split: list.splits)

lemma split_on_no_delim: "p \<in> set (split_on d s) \<Longrightarrow> d \<notin> set p"
  by (induction s arbitrary: p) (auto split: list.splits if_splits)

lemma digitVal_nonneg:
  assumes "isDigit c"
  shows "0 \<le> digitVal c"
proof -
  have "(of_char c :: int) = int (of_char c)"
    by (simp only: of_nat_of_char)
  with assms show ?thesis
    by (simp add: isDigit_def digitVal_def)
qed

lemma foldl_digits_nonneg:
  "0 \<le> acc \<Longrightarrow> \<forall>c\<in>set ds. isDigit c \<Longrightarrow>
   0 \<le> foldl (\<lambda>acc c. acc * 10 + digitVal c) acc ds"
  by (induction ds arbitrary: acc) (simp_all add: digitVal_nonneg)

lemma digitsVal_nonneg: "0 \<le> digitsVal (takeWhile isDigit s)"
proof -
  have "\<forall>c\<in>set (takeWhile isDigit s). isDigit c"
    by (auto dest: set_takeWhileD)
  then show ?thesis
    unfolding digitsVal_def by (intro foldl_digits_nonneg) simp_all
qed

lemma round_mantissa_nonneg: "0 \<le> n \<Longrightarrow> 0 \<le> round_mantissa n"
  by (simp add: round_mantissa_def Let_def pos_imp_zdiv_nonneg_iff)

lemma js_number_nonneg:
  assumes "0 \<le> i" and "js_number i = Num n"
  shows "0 \<le> n"
proof -
  from assms(1) have "0 \<le> sgn i * round_mantissa \<bar>i\<bar>"
    by (simp add: round_mantissa_nonneg sgn_if)
  with assms show ?thesis
    by (auto simp: js_number_def split: if_splits)
qed

lemma parseInt10_nonneg:
  assumes "CHR ''-'' \<notin> set str" and "parseInt10 str = Num n"
  shows "0 \<le> n"
proof -
  have "dropWhile isWhiteSpace str \<noteq> [] \<Longrightarrow> hd (dropWhile isWhiteSpace str) \<in> set str"
    by (meson hd_in_set set_dropWhileD)
  with assms(1) have "dropWhile isWhiteSpace str \<noteq> [] \<Longrightarrow> hd (dropWhile isWhiteSpace str) \<noteq> CHR ''-''"
    by metis
  with assms(2) obtain s' where "js_number (digitsVal (takeWhile isDigit s')) = Num n"
    by (auto simp: parseInt10_def Let_def split: if_splits)
  with digitsVal_nonneg show ?thesis by (rule js_number_nonneg)
qed

text \<open>A part never holds the character it was split at, so no parsed position is negative.\<close>

lemma range_start_nonneg:
  assumes "range_start h = Num s"
  shows "0 \<le> s"
proof -
  obtain p ps where ps: "range_parts h = p # ps"
    using split_on_nonempty [of "CHR ''-''"] by (cases "range_parts h") (auto simp: range_parts_def)
  then have "p \<in> set (split_on CHR ''-'' (replace_first ''bytes='' h))"
    by (simp add: range_parts_def)
  then have "CHR ''-'' \<notin> set p" by (rule split_on_no_delim)
  moreover from assms ps have "parseInt10 p = Num s" by (simp add: range_start_def part_def)
  ultimately show ?thesis by (rule parseInt10_nonneg)
qed

lemma stream_route_status:
  "status (fst (stream_route st req)) \<in> {200, 206, 403, 404, 500}"
  by (auto simp: stream_route_def json_error_def split: option.splits sum.splits
      dest: send_video_status)

lemma stream_route_unknown:
  "videos st (params_id req) = None \<Longrightarrow>
   stream_route st req =
     (json_error (if castObjectId st (params_id req) then 404 else 500)
        (if castObjectId st (params_id req) then ''Video no encontrado'' else ''Error del servidor''),
      st)"
  by (simp add: stream_route_def findById_def)

lemma isEnrolled_iff: "isEnrolled c u \<longleftrightarrow> user_id u \<in> set (enrolledStudents c)"
  by (auto simp: isEnrolled_def list_ex_iff)

lemma send_video_rejects:
  assumes "h \<noteq> []"
    and "\<not> (\<exists>s. range_start h = Num s \<and> s \<le> MAX_SAFE_INTEGER \<and>
              (range_end h (int (length content)) = Infinity \<or>
               (\<exists>e. range_end h (int (length content)) = Num e \<and> s \<le> e \<and>
                    e \<le> MAX_SAFE_INTEGER)))"
  shows "send_video v content (Some h) = Inl ERR_OUT_OF_RANGE"
proof -
  have "\<not> (\<exists>s. range_start h = Num s \<and> 0 \<le> s \<and> s \<le> MAX_SAFE_INTEGER \<and>
              (range_end h (int (length content)) = Infinity \<or>
               (\<exists>e. range_end h (int (length content)) = Num e \<and> s \<le> e \<and>
                    e \<le> MAX_SAFE_INTEGER)))"
    using assms(2) by blast
  then have "createReadStream content (range_start h) (range_end h (int (length content))) =
      Inl ERR_OUT_OF_RANGE"
    by (rule createReadStream_rejects)
  with assms(1) show ?thesis by (rule send_video_throws)
qed

text \<open>
  A request with a non-empty Range header, from a requester who passes the access
  check, for a file on disk: either the file stream accepts the positions and the
  response is 206, or it throws and the response is 500.
\<close>

lemma stream_route_range:
  assumes "videos st (params_id req) = Some v" and "course v = Some c"
    and "isEnrolled c (req_user req) \<or> isAdmin (req_user req)"
    and "disk st (filePath v) = Some content"
    and "headers_range req = Some h" and "h \<noteq> []"
  shows "if \<exists>s. range_start h = Num s \<and> s \<le> MAX_SAFE_INTEGER \<and>
               (range_end h (int (length content)) = Infinity \<or>
                (\<exists>e. range_end h (int (length content)) = Num e \<and> s \<le> e \<and>
                     e \<le> MAX_SAFE_INTEGER))
         then status (fst (stream_route st req)) = 206 \<and>
              map_of (head (fst (stream_route st req))) ''Content-Range'' =
                Some (HStr (''bytes '' @ toString (range_start h) @ ''-''
                            @ toString (range_end h (int (length content)))
                            @ ''/'' @ toString (Num (int (length content))))) \<and>
              (\<exists>s n. range_start h = Num s \<and>
                     streamed (fst (stream_route st req)) = take n (drop (nat s) content)) \<and>
              snd (stream_route st req) = inc_views st (params_id req)
         else status (fst (stream_route st req)) = 500 \<and>
              head (fst (stream_route st req)) = [] \<and>
              streamed (fst (stream_route st req)) = [] \<and>
              snd (stream_route st req) = st"
proof (cases "\<exists>s. range_start h = Num s \<and> s \<le> MAX_SAFE_INTEGER \<and>
               (range_end h (int (length content)) = Infinity \<or>
                (\<exists>e. range_end h (int (length content)) = Num e \<and> s \<le> e \<and>
                     e \<le> MAX_SAFE_INTEGER))")
  case False
  with assms(6) have "send_video v content (Some h) = Inl ERR_OUT_OF_RANGE"
    by (rule send_video_rejects)
  with False show ?thesis
    using stream_route_granted [OF assms(1-4)] by (simp add: assms(5) json_error_def)
next
  case True
  then obtain s where s: "range_start h = Num s" "s \<le> MAX_SAFE_INTEGER"
    and e: "range_end h (int (length content)) = Infinity \<or>
            (\<exists>e. range_end h (int (length content)) = Num e \<and> s \<le> e \<and>
                 e \<le> MAX_SAFE_INTEGER)"
    by blast
  from s(1) have s0: "0 \<le> s" by (rule range_start_nonneg)
  from e show ?thesis
  proof
    assume inf: "range_end h (int (length content)) = Infinity"
    have "streamed (fst (stream_route st req)) = take (length content) (drop (nat s) content)"
      using stream_route_granted [OF assms(1-4)]
      by (simp add: assms(5) send_video_open [OF assms(6) s(1) inf s0 s(2)])
    then have "\<exists>s n. range_start h = Num s \<and>
        streamed (fst (stream_route st req)) = take n (drop (nat s) content)"
      using s(1) by blast
    with True show ?thesis
      using stream_route_granted [OF assms(1-4)]
      by (simp add: assms(5) send_video_open [OF assms(6) s(1) inf s0 s(2)] s(1) inf
          del: streamed.simps toString.simps)
  next
    assume "\<exists>e. range_end h (int (length content)) = Num e \<and> s \<le> e \<and>
                 e \<le> MAX_SAFE_INTEGER"
    then obtain e where e: "range_end h (int (length content)) = Num e" "s \<le> e"
      "e \<le> MAX_SAFE_INTEGER" by blast
    have "streamed (fst (stream_route st req)) = take (nat (e - s + 1)) (drop (nat s) content)"
      using stream_route_granted [OF assms(1-4)]
      by (simp add: assms(5) send_video_partial [OF assms(6) s(1) e(1) s0 e(2,3)])
    then have "\<exists>s n. range_start h = Num s \<and>
        streamed (fst (stream_route st req)) = take n (drop (nat s) content)"
      using s(1) by blast
    with True show ?thesis
      using stream_route_granted [OF assms(1-4)]
      by (simp add: assms(5) send_video_partial [OF assms(6) s(1) e(1) s0 e(2,3)] s(1) e(1)
          del: streamed.simps toString.simps)
  qed
qed

lemma digit_char_props:
  assumes "d < 10"
  shows "isDigit (digit_char d)" and "digitVal (digit_char d) = int d"
    and "\<not> isWhiteSpace (digit_char d)" and "digit_char d \<noteq> CHR ''-''" and "digit_char d \<noteq> CHR ''+''"
proof -
  from assms have "d = 0 \<or> d = 1 \<or> d = 2 \<or> d = 3 \<or> d = 4 \<or> d = 5 \<or> d = 6 \<or> d = 7 \<or> d = 8 \<or> d = 9"
    by arith
  then show "isDigit (digit_char d)" and "digitVal (digit_char d) = int d"
    and "\<not> isWhiteSpace (digit_char d)" and "digit_char d \<noteq> CHR ''-''" and "digit_char d \<noteq> CHR ''+''"
    by (auto simp: digit_char_def isDigit_def digitVal_def isWhiteSpace_def)
qed

lemma digits10_nonempty: "digits10 n \<noteq> []"
  by (subst digits10.simps) simp

lemma digits10_all_digits: "c \<in> set (digits10 n) \<Longrightarrow> \<exists>d<10. c = digit_char d"
proof (induction n arbitrary: c rule: digits10.induct)
  case (1 n)
  show ?case
  proof (cases "n < 10")
    case True
    with "1.prems" show ?thesis by (subst (asm) digits10.simps) auto
  next
    case False
    from "1.prems" False have "c \<in> set (digits10 (n div 10)) \<or> c = digit_char (n mod 10)"
      by (subst (asm) digits10.simps) auto
    then show ?thesis
    proof
      assume "c \<in> set (digits10 (n div 10))"
      with False show ?thesis by (simp add: "1.IH")
    next
      assume "c = digit_char (n mod 10)"
      moreover have "n mod 10 < 10" by simp
      ultimately show ?thesis by blast
    qed
  qed
qed

lemma digitsVal_snoc: "digitsVal (ds @ [c]) = digitsVal ds * 10 + digitVal c"
  by (simp add: digitsVal_def)

lemma digitsVal_digits10: "digitsVal (digits10 n) = int n"
proof (induction n rule: digits10.induct)
  case (1 n)
  show ?case
  proof (cases "n < 10")
    case True
    then show ?thesis
      by (subst digits10.simps) (simp add: digitsVal_def digit_char_props)
  next
    case False
    then have "digitsVal (digits10 n) =
        digitsVal (digits10 (n div 10)) * 10 + digitVal (digit_char (n mod 10))"
      by (subst digits10.simps) (simp add: digitsVal_snoc)
    also have "\<dots> = int (n div 10) * 10 + int (n mod 10)"
      using False by (simp add: "1.IH" digit_char_props)
    also have "\<dots> = int ((n div 10) * 10 + n mod 10)"
      by (simp only: of_nat_add of_nat_mult of_nat_numeral)
    finally show ?thesis by simp
  qed
qed

text \<open>A number up to \<open>2 ^ 53\<close> written in decimal is read back as it was.\<close>

lemma parseInt10_digits10:
  assumes "int n \<le> 2 ^ 53"
  shows "parseInt10 (digits10 n) = Num (int n)"
proof -
  obtain c cs where cs: "digits10 n = c # cs"
    using digits10_nonempty [of n] by (cases "digits10 n") auto
  then have "c \<in> set (digits10 n)" by simp
  then obtain d where d: "d < 10" "c = digit_char d" using digits10_all_digits by blast
  have ne: "digits10 n \<noteq> []" by (rule digits10_nonempty)
  have hd: "hd (digits10 n) \<noteq> CHR ''-''" "hd (digits10 n) \<noteq> CHR ''+''"
    using cs d by (simp_all add: digit_char_props)
  have ws: "dropWhile isWhiteSpace (digits10 n) = digits10 n"
    using cs d by (simp add: digit_char_props)
  have "\<forall>x\<in>set (digits10 n). isDigit x"
    using digits10_all_digits digit_char_props(1) by blast
  then have tw: "takeWhile isDigit (digits10 n) = digits10 n"
    by (simp only: takeWhile_eq_all_conv)
  have num: "js_number (int n) = Num (int n)"
    using assms by (intro js_number_exact) simp
  show ?thesis
    unfolding parseInt10_def Let_def ws
    using ne hd by (simp add: tw digitsVal_digits10 num)
qed

lemma split_on_append:
  "d \<notin> set xs \<Longrightarrow> split_on d (xs @ d # ys) = xs # split_on d ys"
proof (induction xs)
  case Nil
  show ?case by simp
next
  case (Cons a xs)
  then have "a \<noteq> d" and "split_on d (xs @ d # ys) = xs # split_on d ys" by auto
  then show ?case by simp
qed

lemma split_on_single: "d \<notin> set xs \<Longrightarrow> split_on d xs = [xs]"
proof (induction xs)
  case Nil
  show ?case by simp
next
  case (Cons a xs)
  then have "a \<noteq> d" and "split_on d xs = [xs]" by auto
  then show ?case by simp
qed

lemma digits10_no_dash: "CHR ''-'' \<notin> set (digits10 n)"
proof
  assume "CHR ''-'' \<in> set (digits10 n)"
  then obtain d where "d < 10" and "CHR ''-'' = digit_char d"
    using digits10_all_digits by blast
  then show False
    using digit_char_props(4) [of d] by simp
qed

lemma replace_first_bytes: "replace_first ''bytes='' (''bytes='' @ x) = x"
proof -
  have "take (length ''bytes='') (''bytes='' @ x) = ''bytes=''" by simp
  moreover have "drop (length ''bytes='') (''bytes='' @ x) = x" by simp
  moreover have "''bytes='' @ x = CHR ''b'' # (''ytes='' @ x)" by simp
  ultimately show ?thesis by (simp only: replace_first.simps if_True refl)
qed

lemma range_parts_header: "range_parts (range_header s e) = [digits10 s, digits10 e]"
proof -
  have "range_parts (range_header s e) = split_on CHR ''-'' (digits10 s @ CHR ''-'' # digits10 e)"
    unfolding range_parts_def range_header_def by (simp only: replace_first_bytes) simp
  also have "\<dots> = digits10 s # split_on CHR ''-'' (digits10 e)"
    using digits10_no_dash by (rule split_on_append)
  also have "split_on CHR ''-'' (digits10 e) = [digits10 e]"
    using digits10_no_dash by (rule split_on_single)
  finally show ?thesis .
qed

text \<open>The header \<open>bytes=s-e\<close> written in decimal is read back as the range \<open>(s, e)\<close>.\<close>

lemma range_header_parses:
  assumes "int s \<le> 2 ^ 53" and "int e \<le> 2 ^ 53"
  shows "range_start (range_header s e) = Num (int s) \<and>
         range_end (range_header s e) len = Num (int e)"
  using assms
  by (simp add: range_start_def range_end_def range_parts_header part_def parseInt10_digits10
      digits10_nonempty)

lemma asks_range_header:
  assumes "int s \<le> 2 ^ 53" and "int e \<le> 2 ^ 53"
  shows "asks_range len \<lparr>params_id = vid, req_user = u,
           headers_range = Some (range_header s e)\<rparr> (s, e)"
  using assms by (simp add: asks_range_def range_header_parses)

lemma stream_route_keeps_file:
  assumes "videos st vid = Some v" "course v = Some c" "disk st (filePath v) = Some content"
  shows "\<exists>v'. videos (snd (stream_route st req)) vid = Some v' \<and> course v' = Some c \<and>
              disk (snd (stream_route st req)) (filePath v') = Some content"
proof -
  have "snd (stream_route st req) = st \<or> snd (stream_route st req) = inc_views st (params_id req)"
    by (auto simp: stream_route_def split: option.splits sum.splits)
  then show ?thesis
    using assms by (auto simp: inc_views_def split: option.splits)
qed

lemma serve_all_tiles:
  assumes "tiles from (length content) rs"
    and "list_all2 (\<lambda>req r. params_id req = vid \<and>
                      (isEnrolled c (req_user req) \<or> isAdmin (req_user req)) \<and>
                      asks_range (length content) req r) reqs rs"
    and "\<exists>v. videos st vid = Some v \<and> course v = Some c \<and> disk st (filePath v) = Some content"
    and "int (length content) - 1 \<le> MAX_SAFE_INTEGER"
  shows "concat (map streamed (serve_all st reqs)) = drop from content \<and>
         list_all (\<lambda>res. status res = 206) (serve_all st reqs)"
  using assms(2,1,3)
proof (induction reqs rs arbitrary: st "from" rule: list_all2_induct)
  case Nil
  then show ?case by simp
next
  case (Cons req reqs r rs)
  obtain s e where r: "r = (s, e)" by (cases r)
  from Cons.prems(1) r have t: "s = from" "s \<le> e" "e < length content" "tiles (Suc e) (length content) rs"
    by simp_all
  from Cons.prems(2) obtain v where v: "videos st vid = Some v" "course v = Some c"
    "disk st (filePath v) = Some content" by blast
  from Cons.hyps(1) r obtain h where h: "headers_range req = Some h"
    "range_start h = Num (int s)" "range_end h (int (length content)) = Num (int e)"
    and id: "params_id req = vid" and acc: "isEnrolled c (req_user req) \<or> isAdmin (req_user req)"
    by (auto simp: asks_range_def split: option.splits)
  have hne: "h \<noteq> []" using h(2) by (rule range_start_Num_nonempty)
  have emax: "int e \<le> MAX_SAFE_INTEGER" using t(3) assms(4) by simp
  have sv: "send_video v content (Some h) = 
     Inr \<lparr>status = 206,
          head = [(''Content-Range'',
                     HStr (''bytes '' @ toString (Num (int s)) @ ''-'' @ toString (Num (int e))
                           @ ''/'' @ toString (Num (int (length content))))),
                  (''Accept-Ranges'', HStr ''bytes''),
                  (''Content-Length'', HNum (Num (int e - int s + 1))),
                  (''Content-Type'', HStr (content_type v))],
          body = Piped (take (nat (int e - int s + 1)) (drop (nat (int s)) content))\<rparr>"
    using hne h(2,3) _ _ emax by (rule send_video_partial) (use t in simp_all)
  have "stream_route st req = (case send_video v content (headers_range req) of
        Inl err \<Rightarrow> (json_error 500 ''Error del servidor'', st)
      | Inr res \<Rightarrow> (res, inc_views st (params_id req)))"
    using v(1)[folded id] v(2) acc v(3) by (rule stream_route_granted)
  then obtain res where res: "stream_route st req = (res, snd (stream_route st req))"
    "status res = 206" "streamed res = take (nat (int e - int s + 1)) (drop (nat (int s)) content)"
    by (simp add: h(1) sv)
  have n: "nat (int e - int s + 1) = Suc e - s" using t(2) by simp
  have keep: "\<exists>v. videos (snd (stream_route st req)) vid = Some v \<and> course v = Some c \<and>
      disk (snd (stream_route st req)) (filePath v) = Some content"
    using v by (rule stream_route_keeps_file)
  from Cons.IH [OF t(4) keep]
  have ih: "concat (map streamed (serve_all (snd (stream_route st req)) reqs)) = drop (Suc e) content"
    "list_all (\<lambda>res. status res = 206) (serve_all (snd (stream_route st req)) reqs)"
    by blast+
  have sa: "serve_all st (req # reqs) = res # serve_all (snd (stream_route st req)) reqs"
    using res(1) by (metis case_prod_conv serve_all.simps(2))
  have "take (Suc e - s) (drop s content) @ drop (Suc e) content = drop s content"
  proof -
    have "drop (Suc e) content = drop (Suc e - s) (drop s content)"
      using t(2) by simp
    then show ?thesis by (simp only: append_take_drop_id)
  qed
  then have "concat (map streamed (res # serve_all (snd (stream_route st req)) reqs)) =
      drop from content \<and>
      list_all (\<lambda>res. status res = 206) (res # serve_all (snd (stream_route st req)) reqs)"
    using ih res(2,3) n t(1) by (simp del: streamed.simps)
  then show ?case by (simp only: sa)
qed

section \<open>Full content: no Range header\<close>

text \<open>
  Claim C4. A request without a Range header, from a user who passes the access check,
  for a video whose file is on disk with any length \<open>L \<ge> 0\<close>, is answered with status
  200, the headers \<open>Content-Length: L\<close> and \<open>Content-Type\<close> (the video's mimeType when
  it has one), and the whole file as body. \<open>L\<close> is the size of the file on disk.
\<close>

theorem stream_full_content:
  assumes "videos st (params_id req) = Some v" and "course v = Some c"
    and "isEnrolled c (req_user req) \<or> isAdmin (req_user req)"
    and "disk st (filePath v) = Some content"
    and "headers_range req = None"
  shows "status (fst (stream_route st req)) = 200 \<and>
         head (fst (stream_route st req)) =
           [(''Content-Length'', HNum (Num (int (length content)))),
            (''Content-Type'', HStr (content_type v))] \<and>
         (mimeType v = Some m \<and> m \<noteq> [] \<longrightarrow> content_type v = m) \<and>
         streamed (fst (stream_route st req)) = content"
  using assms by (simp add: stream_route_granted send_video_full content_type_def)

theorem stream_full_content_witness:
  "status (fst (stream_route ex_store (ex_request id_v1 ex_student None))) = 200 \<and>
   head (fst (stream_route ex_store (ex_request id_v1 ex_student None))) =
     [(''Content-Length'', HNum (Num 10)), (''Content-Type'', HStr ''video/webm'')] \<and>
   streamed (fst (stream_route ex_store (ex_request id_v1 ex_student None))) = ex_content10 \<and>
   status (fst (stream_route ex_store (ex_request id_v3 ex_admin None))) = 200 \<and>
   head (fst (stream_route ex_store (ex_request id_v3 ex_admin None))) =
     [(''Content-Length'', HNum (Num 0)), (''Content-Type'', HStr ''video/mp4'')] \<and>
   streamed (fst (stream_route ex_store (ex_request id_v3 ex_admin None))) = []"
proof -
  have v1: "videos ex_store (params_id (ex_request id_v1 ex_student None)) =
      Some (ex_video ''/uploads/videos/a.mp4'' 10 (Some ''video/webm''))"
    by (simp add: ex_store_def ex_request_def)
  have c1: "course (ex_video ''/uploads/videos/a.mp4'' 10 (Some ''video/webm'')) = Some ex_course"
    by (simp add: ex_video_def)
  have a1: "isEnrolled ex_course (req_user (ex_request id_v1 ex_student None)) \<or>
      isAdmin (req_user (ex_request id_v1 ex_student None))"
    by (simp add: isEnrolled_def ex_course_def ex_request_def ex_student_def)
  have d1: "disk ex_store (filePath (ex_video ''/uploads/videos/a.mp4'' 10 (Some ''video/webm''))) =
      Some ex_content10"
    by (simp add: ex_store_def ex_video_def)
  have h1: "headers_range (ex_request id_v1 ex_student None) = None"
    by (simp add: ex_request_def)
  have v3: "videos ex_store (params_id (ex_request id_v3 ex_admin None)) =
      Some (ex_video ''/uploads/videos/c.mp4'' 0 (Some []))"
    by (simp add: ex_store_def ex_request_def)
  have c3: "course (ex_video ''/uploads/videos/c.mp4'' 0 (Some [])) = Some ex_course"
    by (simp add: ex_video_def)
  have a3: "isEnrolled ex_course (req_user (ex_request id_v3 ex_admin None)) \<or>
      isAdmin (req_user (ex_request id_v3 ex_admin None))"
    by (simp add: isAdmin_def ex_request_def ex_admin_def)
  have d3: "disk ex_store (filePath (ex_video ''/uploads/videos/c.mp4'' 0 (Some []))) = Some []"
    by (simp add: ex_store_def ex_video_def)
  have h3: "headers_range (ex_request id_v3 ex_admin None) = None"
    by (simp add: ex_request_def)
  have m1: "mimeType (ex_video ''/uploads/videos/a.mp4'' 10 (Some ''video/webm'')) = Some ''video/webm''"
    by (simp add: ex_video_def)
  have t3: "content_type (ex_video ''/uploads/videos/c.mp4'' 0 (Some [])) = ''video/mp4''"
    by (simp add: content_type_def ex_video_def)
  show ?thesis
    using stream_full_content [OF v1 c1 a1 d1 h1, of "''video/webm''"]
      stream_full_content [OF v3 c3 a3 d3 h3, of "''x''"] m1 t3
    by (simp add: ex_content10_def)
qed

section \<open>Partial content: a range inside the file\<close>

text \<open>
  Claim C3. A request whose Range header parses to \<open>0 \<le> start \<le> end \<le> length - 1\<close>
  (the end being \<open>length - 1\<close> when the header leaves it out) is answered with status
  206, the headers \<open>Content-Range: bytes start-end/length\<close>, \<open>Accept-Ranges: bytes\<close>,
  \<open>Content-Length: end - start + 1\<close> and \<open>Content-Type\<close> (the video's mimeType when it
  has one), and exactly the bytes at positions \<open>start\<close> to \<open>end\<close> of the file; a range
  of one byte has chunk size 1.
  File positions are integers up to \<open>2 ^ 53 - 1\<close>, as the runtime requires.
\<close>

theorem stream_partial_content:
  assumes "videos st (params_id req) = Some v" and "course v = Some c"
    and "isEnrolled c (req_user req) \<or> isAdmin (req_user req)"
    and "disk st (filePath v) = Some content"
    and "headers_range req = Some h"
    and "range_start h = Num s" and "range_end h (int (length content)) = Num e"
    and "0 \<le> s" and "s \<le> e" and "e \<le> int (length content) - 1"
    and "int (length content) - 1 \<le> MAX_SAFE_INTEGER"
  shows "status (fst (stream_route st req)) = 206 \<and>
         head (fst (stream_route st req)) =
           [(''Content-Range'',
               HStr (''bytes '' @ toString (Num s) @ ''-'' @ toString (Num e)
                     @ ''/'' @ toString (Num (int (length content))))),
            (''Accept-Ranges'', HStr ''bytes''),
            (''Content-Length'', HNum (Num (e - s + 1))),
            (''Content-Type'', HStr (content_type v))] \<and>
         streamed (fst (stream_route st req)) = take (nat (e - s + 1)) (drop (nat s) content) \<and>
         int (length (streamed (fst (stream_route st req)))) = e - s + 1 \<and>
         (s = e \<longrightarrow> e - s + 1 = 1) \<and>
         (\<not> truthy (part (range_parts h) 1) \<longrightarrow> e = int (length content) - 1) \<and>
         (mimeType v = Some m \<and> m \<noteq> [] \<longrightarrow> content_type v = m)"
proof -
  from assms have e: "e \<le> MAX_SAFE_INTEGER" by simp
  have h: "h \<noteq> []" using assms(6) by (rule range_start_Num_nonempty)
  have "send_video v content (Some h) =
     Inr \<lparr>status = 206,
          head = [(''Content-Range'',
                     HStr (''bytes '' @ toString (Num s) @ ''-'' @ toString (Num e)
                           @ ''/'' @ toString (Num (int (length content))))),
                  (''Accept-Ranges'', HStr ''bytes''),
                  (''Content-Length'', HNum (Num (e - s + 1))),
                  (''Content-Type'', HStr (content_type v))],
          body = Piped (take (nat (e - s + 1)) (drop (nat s) content))\<rparr>"
    using h assms(6,7,8,9) e by (rule send_video_partial)
  then have r: "stream_route st req =
     (\<lparr>status = 206,
       head = [(''Content-Range'',
                  HStr (''bytes '' @ toString (Num s) @ ''-'' @ toString (Num e)
                        @ ''/'' @ toString (Num (int (length content))))),
               (''Accept-Ranges'', HStr ''bytes''),
               (''Content-Length'', HNum (Num (e - s + 1))),
               (''Content-Type'', HStr (content_type v))],
       body = Piped (take (nat (e - s + 1)) (drop (nat s) content))\<rparr>,
      inc_views st (params_id req))"
    using assms(1-5) by (simp add: stream_route_granted)
  have len: "int (length (take (nat (e - s + 1)) (drop (nat s) content))) = e - s + 1"
    using assms(8,9,10) by auto
  have dflt: "\<not> truthy (part (range_parts h) 1) \<longrightarrow> e = int (length content) - 1"
    using assms(7) by (auto simp: range_end_def)
  have mime: "mimeType v = Some m \<and> m \<noteq> [] \<longrightarrow> content_type v = m"
    by (simp add: content_type_def)
  show ?thesis using len dflt mime by (simp add: r)
qed

theorem stream_partial_content_witness:
  "status (fst (stream_route ex_store (ex_request id_v1 ex_student (Some ''bytes=2-4'')))) = 206 \<and>
   head (fst (stream_route ex_store (ex_request id_v1 ex_student (Some ''bytes=2-4'')))) =
     [(''Content-Range'', HStr ''bytes 2-4/10''), (''Accept-Ranges'', HStr ''bytes''),
      (''Content-Length'', HNum (Num 3)), (''Content-Type'', HStr ''video/webm'')] \<and>
   streamed (fst (stream_route ex_store (ex_request id_v1 ex_student (Some ''bytes=2-4'')))) =
     [0x12, 0x13, 0x14] \<and>
   head (fst (stream_route ex_store (ex_request id_v1 ex_admin (Some ''bytes=0-0'')))) =
     [(''Content-Range'', HStr ''bytes 0-0/10''), (''Accept-Ranges'', HStr ''bytes''),
      (''Content-Length'', HNum (Num 1)), (''Content-Type'', HStr ''video/webm'')] \<and>
   streamed (fst (stream_route ex_store (ex_request id_v1 ex_admin (Some ''bytes=0-0'')))) = [0x10] \<and>
   head (fst (stream_route ex_store (ex_request id_v1 ex_student (Some ''bytes=8-'')))) =
     [(''Content-Range'', HStr ''bytes 8-9/10''), (''Accept-Ranges'', HStr ''bytes''),
      (''Content-Length'', HNum (Num 2)), (''Content-Type'', HStr ''video/webm'')] \<and>
   streamed (fst (stream_route ex_store (ex_request id_v1 ex_student (Some ''bytes=8-'')))) =
     [0x18, 0x19]"
proof -
  have s: "range_start ''bytes=2-4'' = Num 2" "range_start ''bytes=0-0'' = Num 0"
    "range_start ''bytes=8-'' = Num 8"
    by code_simp+
  have e: "range_end ''bytes=2-4'' (int (length ex_content10)) = Num 4"
    "range_end ''bytes=0-0'' (int (length ex_content10)) = Num 0"
    "range_end ''bytes=8-'' (int (length ex_content10)) = Num 9"
    by code_simp+
  have m: "int (length ex_content10) - 1 \<le> MAX_SAFE_INTEGER"
    by code_simp
  have t: "toString (Num 0) = ''0''" "toString (Num 2) = ''2''" "toString (Num 4) = ''4''"
    "toString (Num 8) = ''8''" "toString (Num 9) = ''9''" "toString (Num 10) = ''10''"
    by code_simp+
  have ct: "content_type (ex_video ''/uploads/videos/a.mp4'' 10 (Some ''video/webm'')) = ''video/webm''"
    by code_simp
  show ?thesis
    using stream_partial_content [of ex_store "ex_request id_v1 ex_student (Some ''bytes=2-4'')"
        "ex_video ''/uploads/videos/a.mp4'' 10 (Some ''video/webm'')" ex_course ex_content10
        "''bytes=2-4''" 2 4 "''video/webm''"]
      stream_partial_content [of ex_store "ex_request id_v1 ex_admin (Some ''bytes=0-0'')"
        "ex_video ''/uploads/videos/a.mp4'' 10 (Some ''video/webm'')" ex_course ex_content10
        "''bytes=0-0''" 0 0 "''video/webm''"]
      stream_partial_content [of ex_store "ex_request id_v1 ex_student (Some ''bytes=8-'')"
        "ex_video ''/uploads/videos/a.mp4'' 10 (Some ''video/webm'')" ex_course ex_content10
        "''bytes=8-''" 8 9 "''video/webm''"]
      s e m t ct
    by (simp add: ex_store_def ex_request_def isEnrolled_def isAdmin_def ex_student_def
        ex_admin_def ex_course_def ex_video_def ex_content10_def)
qed

section \<open>Not found\<close>

text \<open>
  The handler passes the id of the request to \<^verbatim>\<open>Video.findById\<close> as it came. The text
  \<open>abc\<close> is no ObjectId for any version of the driver: the query is rejected, the
  \<^verbatim>\<open>catch\<close> block answers, and the status is 500 where claim C7 expects 404 for an id
  that resolves to no stored record.
\<close>

theorem stream_not_found_counterexample:
  "videos ex_store ''abc'' = None \<and>
   \<not> castObjectId ex_store ''abc'' \<and>
   params_id (ex_request ''abc'' ex_student None) = ''abc'' \<and>
   status (fst (stream_route ex_store (ex_request ''abc'' ex_student None))) = 500 \<and>
   status (fst (stream_route ex_store (ex_request ''abc'' ex_student None))) \<noteq> 404"
  by code_simp

text \<open>
  Claim C7, amended. When the id can be cast to an ObjectId and resolves to no video
  document, or when it resolves (for a requester who passes the access check) to a
  document whose file path is not on disk, the response is 404, no file byte is streamed
  and the store is left as it was. The disk is consulted on each request: the size
  recorded in the document plays no part. When the id cannot be cast to an ObjectId the
  query is rejected and the response is 500, again with no byte streamed and the store
  as it was.
\<close>

theorem stream_not_found:
  "((videos st (params_id req) = None \<and> castObjectId st (params_id req)) \<or>
    (\<exists>v c. videos st (params_id req) = Some v \<and> course v = Some c \<and>
           (isEnrolled c (req_user req) \<or> isAdmin (req_user req)) \<and>
           disk st (filePath v) = None) \<longrightarrow>
      status (fst (stream_route st req)) = 404 \<and>
      streamed (fst (stream_route st req)) = [] \<and>
      snd (stream_route st req) = st) \<and>
   (videos st (params_id req) = None \<and> \<not> castObjectId st (params_id req) \<longrightarrow>
      status (fst (stream_route st req)) = 500 \<and>
      streamed (fst (stream_route st req)) = [] \<and>
      snd (stream_route st req) = st)"
  by (auto simp: stream_route_def findById_def json_error_def)

theorem stream_not_found_witness:
  "videos ex_store id_v0 = None \<and> castObjectId ex_store id_v0 \<and>
   status (fst (stream_route ex_store (ex_request id_v0 ex_student None))) = 404 \<and>
   fileSize (the (videos ex_store id_v4)) = 1000 \<and>
   disk ex_store (filePath (the (videos ex_store id_v4))) = None \<and>
   status (fst (stream_route ex_store (ex_request id_v4 ex_student (Some ''bytes=0-9'')))) = 404 \<and>
   snd (stream_route ex_store (ex_request id_v4 ex_student (Some ''bytes=0-9''))) = ex_store \<and>
   videos ex_store ''abc'' = None \<and> \<not> castObjectId ex_store ''abc'' \<and>
   status (fst (stream_route ex_store (ex_request ''abc'' ex_student None))) = 500 \<and>
   snd (stream_route ex_store (ex_request ''abc'' ex_student None)) = ex_store"
  using stream_not_found [of ex_store "ex_request id_v0 ex_student None"]
    stream_not_found [of ex_store "ex_request id_v4 ex_student (Some ''bytes=0-9'')"]
    stream_not_found [of ex_store "ex_request ''abc'' ex_student None"]
  by (simp add: ex_store_def ex_request_def ex_video_def isEnrolled_def ex_student_def
      ex_course_def isHexId_def isHexDigit_def)

section \<open>Forbidden\<close>

text \<open>
  Claim C10. A request by an authenticated user who is not among the enrolled students
  of the video's course and whose role is not admin is answered with 403; no file byte
  is streamed and the store, view counter included, is left as it was.
\<close>

theorem stream_forbidden:
  assumes "videos st (params_id req) = Some v" and "course v = Some c"
    and "user_id (req_user req) \<notin> set (enrolledStudents c)"
    and "role (req_user req) \<noteq> ''admin''"
  shows "status (fst (stream_route st req)) = 403 \<and>
         streamed (fst (stream_route st req)) = [] \<and>
         snd (stream_route st req) = st"
  using assms
  by (simp add: stream_route_def findById_def json_error_def isEnrolled_iff isAdmin_def)

theorem stream_forbidden_witness:
  "user_id ex_outsider \<notin> set (enrolledStudents ex_course) \<and> role ex_outsider \<noteq> ''admin'' \<and>
   status (fst (stream_route ex_store (ex_request id_v1 ex_outsider None))) = 403 \<and>
   streamed (fst (stream_route ex_store (ex_request id_v1 ex_outsider None))) = [] \<and>
   snd (stream_route ex_store (ex_request id_v1 ex_outsider None)) = ex_store"
  using stream_forbidden [of ex_store "ex_request id_v1 ex_outsider None"
      "ex_video ''/uploads/videos/a.mp4'' 10 (Some ''video/webm'')" ex_course]
  by (simp add: ex_store_def ex_request_def ex_video_def ex_outsider_def ex_course_def)

section \<open>Default content type\<close>

text \<open>
  Claim C9. When the video document has no mimeType, or an empty one, every streaming
  response, 200 and 206 alike, carries \<open>Content-Type: video/mp4\<close>.
\<close>

theorem stream_default_content_type:
  assumes "videos st (params_id req) = Some v"
    and "mimeType v = None \<or> mimeType v = Some []"
    and "status (fst (stream_route st req)) = 200 \<or> status (fst (stream_route st req)) = 206"
  shows "map_of (head (fst (stream_route st req))) ''Content-Type'' = Some (HStr ''video/mp4'')"
proof -
  from assms(2) have ct: "content_type v = ''video/mp4''"
    by (auto simp: content_type_def)
  from assms(1,3) obtain content res where "send_video v content (headers_range req) = Inr res"
    and "fst (stream_route st req) = res"
    by (auto simp: stream_route_def findById_def json_error_def
        split: option.splits if_splits sum.splits)
  then show ?thesis using ct by (simp add: send_video_content_type)
qed

theorem stream_default_content_type_witness:
  "status (fst (stream_route ex_store (ex_request id_v2 ex_student None))) = 200 \<and>
   map_of (head (fst (stream_route ex_store (ex_request id_v2 ex_student None)))) ''Content-Type'' =
     Some (HStr ''video/mp4'') \<and>
   status (fst (stream_route ex_store (ex_request id_v3 ex_student (Some ''bytes=0-0'')))) = 206 \<and>
   map_of (head (fst (stream_route ex_store (ex_request id_v3 ex_student (Some ''bytes=0-0'')))))
     ''Content-Type'' = Some (HStr ''video/mp4'')"
proof -
  have a: "status (fst (stream_route ex_store (ex_request id_v2 ex_student None))) = 200"
    by code_simp
  have b: "status (fst (stream_route ex_store (ex_request id_v3 ex_student (Some ''bytes=0-0'')))) = 206"
    by code_simp
  show ?thesis
    using a b
      stream_default_content_type [of ex_store "ex_request id_v2 ex_student None"
        "ex_video ''/uploads/videos/b.mp4'' 100 None"]
      stream_default_content_type [of ex_store "ex_request id_v3 ex_student (Some ''bytes=0-0'')"
        "ex_video ''/uploads/videos/c.mp4'' 0 (Some [])"]
    by (simp add: ex_store_def ex_request_def ex_video_def)
qed

section \<open>View counter\<close>

text \<open>
  Claim C8. A request that starts a stream (status 200 or 206) adds exactly 1 to the
  view counter of the requested video and changes nothing else in the store; a request
  answered with any other status (404, 403, 416, 500) leaves the store as it was. The
  update is dispatched without being awaited; the store returned here is the store once
  that update has been applied.
\<close>

theorem stream_view_counter:
  "(status (fst (stream_route st req)) \<in> {200, 206} \<longrightarrow>
      (\<exists>v. videos st (params_id req) = Some v \<and>
           snd (stream_route st req) =
             st\<lparr>videos := (videos st)(params_id req \<mapsto> v\<lparr>views := views v + 1\<rparr>)\<rparr>)) \<and>
   (status (fst (stream_route st req)) \<notin> {200, 206} \<longrightarrow> snd (stream_route st req) = st)"
  by (auto simp: stream_route_def findById_def json_error_def inc_views_def
      split: option.splits sum.splits if_splits dest: send_video_status)

theorem stream_view_counter_witness:
  "status (fst (stream_route ex_store (ex_request id_v1 ex_student (Some ''bytes=2-4'')))) = 206 \<and>
   views (the (videos ex_store id_v1)) = 7 \<and>
   views (the (videos (snd (stream_route ex_store
     (ex_request id_v1 ex_student (Some ''bytes=2-4'')))) id_v1)) = 8 \<and>
   status (fst (stream_route ex_store (ex_request id_v1 ex_outsider None))) = 403 \<and>
   snd (stream_route ex_store (ex_request id_v1 ex_outsider None)) = ex_store"
proof -
  have a: "status (fst (stream_route ex_store (ex_request id_v1 ex_student (Some ''bytes=2-4'')))) = 206"
    by code_simp
  have b: "status (fst (stream_route ex_store (ex_request id_v1 ex_outsider None))) = 403"
    by code_simp
  have c: "videos ex_store id_v1 = Some (ex_video ''/uploads/videos/a.mp4'' 10 (Some ''video/webm''))"
    by (simp add: ex_store_def)
  show ?thesis
    using a b c
      stream_view_counter [of ex_store "ex_request id_v1 ex_student (Some ''bytes=2-4'')"]
      stream_view_counter [of ex_store "ex_request id_v1 ex_outsider None"]
    by (auto simp: ex_request_def ex_video_def)
qed

section \<open>Ranges the file cannot satisfy\<close>

text \<open>
  The handler has no branch that answers 416: a range is handed to the file stream as it
  was parsed. The request below asks for \<open>bytes=10-15\<close> of a file of 10 bytes
  (\<open>start \<ge> length\<close>) and is answered with 206 and \<open>Content-Range: bytes 10-15/10\<close>,
  where claim C1 expects 416 and \<open>Content-Range: bytes */10\<close>.
\<close>

theorem stream_invalid_range_counterexample:
  "headers_range (ex_request id_v1 ex_student (Some ''bytes=10-15'')) = Some ''bytes=10-15'' \<and>
   range_start ''bytes=10-15'' = Num 10 \<and>
   disk ex_store ''/uploads/videos/a.mp4'' = Some ex_content10 \<and>
   int (length ex_content10) \<le> 10 \<and>
   status (fst (stream_route ex_store (ex_request id_v1 ex_student (Some ''bytes=10-15'')))) = 206 \<and>
   status (fst (stream_route ex_store (ex_request id_v1 ex_student (Some ''bytes=10-15'')))) \<noteq> 416 \<and>
   map_of (head (fst (stream_route ex_store (ex_request id_v1 ex_student (Some ''bytes=10-15'')))))
     ''Content-Range'' = Some (HStr ''bytes 10-15/10'')"
  by code_simp

text \<open>
  Claim C1, amended. For a request with a non-empty Range header whose start is
  unparsable, or greater than the end, or at least the length of the file (requester
  passing the access check, file on disk): no file byte is streamed and the status is
  never 416. When the file stream accepts the positions, which are then a start with
  \<open>length \<le> start \<le> 2 ^ 53 - 1\<close> and an end that is either a number with
  \<open>start \<le> end \<le> 2 ^ 53 - 1\<close> or infinite (a run of digits beyond the doubles), the
  response is 206 with \<open>Content-Range: bytes start-end/length\<close> and a view is counted;
  in every other case the file stream throws, the response is 500 without headers and
  the store is unchanged.
\<close>

theorem stream_invalid_range:
  assumes "videos st (params_id req) = Some v" and "course v = Some c"
    and "isEnrolled c (req_user req) \<or> isAdmin (req_user req)"
    and "disk st (filePath v) = Some content"
    and "headers_range req = Some h" and "h \<noteq> []"
    and "range_start h = NaN \<or>
         js_gt (range_start h) (range_end h (int (length content))) \<or>
         (\<exists>s. range_start h = Num s \<and> int (length content) \<le> s) \<or>
         range_start h = Infinity"
  shows "streamed (fst (stream_route st req)) = [] \<and>
         status (fst (stream_route st req)) \<noteq> 416 \<and>
         (if \<exists>s. range_start h = Num s \<and> s \<le> MAX_SAFE_INTEGER \<and>
                  (range_end h (int (length content)) = Infinity \<or>
                   (\<exists>e. range_end h (int (length content)) = Num e \<and> s \<le> e \<and>
                        e \<le> MAX_SAFE_INTEGER))
          then status (fst (stream_route st req)) = 206 \<and>
               map_of (head (fst (stream_route st req))) ''Content-Range'' =
                 Some (HStr (''bytes '' @ toString (range_start h) @ ''-''
                             @ toString (range_end h (int (length content)))
                             @ ''/'' @ toString (Num (int (length content))))) \<and>
               snd (stream_route st req) = inc_views st (params_id req)
          else status (fst (stream_route st req)) = 500 \<and>
               head (fst (stream_route st req)) = [] \<and>
               snd (stream_route st req) = st)"
proof (cases "\<exists>s. range_start h = Num s \<and> s \<le> MAX_SAFE_INTEGER \<and>
               (range_end h (int (length content)) = Infinity \<or>
                (\<exists>e. range_end h (int (length content)) = Num e \<and> s \<le> e \<and>
                     e \<le> MAX_SAFE_INTEGER))")
  case False
  with stream_route_range [OF assms(1-6)] show ?thesis by simp
next
  case True
  with stream_route_range [OF assms(1-6)]
  have ok: "status (fst (stream_route st req)) = 206"
    "map_of (head (fst (stream_route st req))) ''Content-Range'' =
       Some (HStr (''bytes '' @ toString (range_start h) @ ''-''
                   @ toString (range_end h (int (length content)))
                   @ ''/'' @ toString (Num (int (length content)))))"
    "snd (stream_route st req) = inc_views st (params_id req)"
    and "\<exists>s n. range_start h = Num s \<and>
           streamed (fst (stream_route st req)) = take n (drop (nat s) content)"
    by simp_all
  then obtain s n where s: "range_start h = Num s"
    and b: "streamed (fst (stream_route st req)) = take n (drop (nat s) content)"
    by blast
  from True s have "\<not> js_gt (range_start h) (range_end h (int (length content)))"
    by auto
  with assms(7) s have "int (length content) \<le> s" by auto
  then have "drop (nat s) content = []" by simp
  with b have "streamed (fst (stream_route st req)) = []" by simp
  with True ok show ?thesis by simp
qed

theorem stream_invalid_range_witness:
  "range_start ''bytes=10-15'' = Num 10 \<and> int (length ex_content10) \<le> 10 \<and>
   streamed (fst (stream_route ex_store (ex_request id_v1 ex_student (Some ''bytes=10-15'')))) = [] \<and>
   status (fst (stream_route ex_store (ex_request id_v1 ex_student (Some ''bytes=10-15'')))) = 206 \<and>
   range_start ''bytes=-5'' = NaN \<and>
   status (fst (stream_route ex_store (ex_request id_v1 ex_student (Some ''bytes=-5'')))) = 500 \<and>
   js_gt (range_start ''bytes=7-3'') (range_end ''bytes=7-3'' (int (length ex_content10))) \<and>
   status (fst (stream_route ex_store (ex_request id_v1 ex_student (Some ''bytes=7-3'')))) = 500 \<and>
   range_end (ex_range_open 10) (int (length ex_content10)) = Infinity \<and>
   status (fst (stream_route ex_store (ex_request id_v1 ex_student (Some (ex_range_open 10))))) = 206 \<and>
   map_of (head (fst (stream_route ex_store (ex_request id_v1 ex_student (Some (ex_range_open 10))))))
     ''Content-Range'' = Some (HStr ''bytes 10-Infinity/10'') \<and>
   streamed (fst (stream_route ex_store (ex_request id_v1 ex_student (Some (ex_range_open 10))))) = []"
proof -
  have p: "range_start ''bytes=10-15'' = Num 10"
    "range_end ''bytes=10-15'' (int (length ex_content10)) = Num 15"
    "range_start ''bytes=-5'' = NaN"
    "range_start ''bytes=7-3'' = Num 7" "range_end ''bytes=7-3'' (int (length ex_content10)) = Num 3"
    "range_start (ex_range_open 10) = Num 10"
    by code_simp+
  have q: "range_end (ex_range_open 10) (int (length ex_content10)) = Infinity"
    by code_simp
  have ne: "ex_range_open 10 \<noteq> []"
    by (simp add: ex_range_open_def)
  have m: "(15::int) \<le> MAX_SAFE_INTEGER" "(10::int) \<le> MAX_SAFE_INTEGER" "\<not> (7::int) \<le> 3"
    by code_simp+
  have l: "int (length ex_content10) = 10" by code_simp
  have t: "toString (Num 10) = ''10''" "toString (Num 15) = ''15''"
    "toString Infinity = ''Infinity''"
    by code_simp+
  show ?thesis
    using stream_invalid_range [of ex_store "ex_request id_v1 ex_student (Some ''bytes=10-15'')"
        "ex_video ''/uploads/videos/a.mp4'' 10 (Some ''video/webm'')" ex_course ex_content10
        "''bytes=10-15''"]
      stream_invalid_range [of ex_store "ex_request id_v1 ex_student (Some ''bytes=-5'')"
        "ex_video ''/uploads/videos/a.mp4'' 10 (Some ''video/webm'')" ex_course ex_content10
        "''bytes=-5''"]
      stream_invalid_range [of ex_store "ex_request id_v1 ex_student (Some ''bytes=7-3'')"
        "ex_video ''/uploads/videos/a.mp4'' 10 (Some ''video/webm'')" ex_course ex_content10
        "''bytes=7-3''"]
      stream_invalid_range [of ex_store "ex_request id_v1 ex_student (Some (ex_range_open 10))"
        "ex_video ''/uploads/videos/a.mp4'' 10 (Some ''video/webm'')" ex_course ex_content10
        "ex_range_open 10"]
      p q ne m l t
    by (simp add: ex_store_def ex_request_def isEnrolled_def ex_student_def ex_course_def
        ex_video_def del: toString.simps)
qed

section \<open>Ranges that run past the end of the file\<close>

text \<open>
  The end of a range is not clamped in the headers. For a file of 100 bytes and
  \<open>bytes=50-149\<close> the response is 206 with \<open>Content-Range: bytes 50-149/100\<close> and
  \<open>Content-Length: 100\<close>, where claim C2 expects \<open>bytes 50-99/100\<close> and 50; the body
  holds the 50 bytes the file has from position 50 on.
\<close>

theorem stream_overlong_range_counterexample:
  "length ex_content100 = 100 \<and>
   status (fst (stream_route ex_store (ex_request id_v2 ex_student (Some ''bytes=50-149'')))) = 206 \<and>
   map_of (head (fst (stream_route ex_store (ex_request id_v2 ex_student (Some ''bytes=50-149'')))))
     ''Content-Range'' = Some (HStr ''bytes 50-149/100'') \<and>
   map_of (head (fst (stream_route ex_store (ex_request id_v2 ex_student (Some ''bytes=50-149'')))))
     ''Content-Range'' \<noteq> Some (HStr ''bytes 50-99/100'') \<and>
   map_of (head (fst (stream_route ex_store (ex_request id_v2 ex_student (Some ''bytes=50-149'')))))
     ''Content-Length'' = Some (HNum (Num 100)) \<and>
   map_of (head (fst (stream_route ex_store (ex_request id_v2 ex_student (Some ''bytes=50-149'')))))
     ''Content-Length'' \<noteq> Some (HNum (Num 50)) \<and>
   length (streamed (fst (stream_route ex_store (ex_request id_v2 ex_student (Some ''bytes=50-149''))))) = 50"
  by code_simp

text \<open>
  Claim C2, amended. For a request whose Range header parses to \<open>0 \<le> start < length\<close>
  and \<open>length - 1 < end \<le> 2 ^ 53 - 1\<close>, the handler does not reject: the response is
  206 and the body is the bytes from \<open>start\<close> to the end of the file, but the headers
  are written from the end as sent, \<open>Content-Range: bytes start-end/length\<close> and
  \<open>Content-Length: end - start + 1\<close>.
\<close>

theorem stream_overlong_range:
  assumes "videos st (params_id req) = Some v" and "course v = Some c"
    and "isEnrolled c (req_user req) \<or> isAdmin (req_user req)"
    and "disk st (filePath v) = Some content"
    and "headers_range req = Some h"
    and "range_start h = Num s" and "range_end h (int (length content)) = Num e"
    and "s < int (length content)" and "int (length content) - 1 < e"
    and "e \<le> MAX_SAFE_INTEGER"
  shows "status (fst (stream_route st req)) = 206 \<and>
         head (fst (stream_route st req)) =
           [(''Content-Range'',
               HStr (''bytes '' @ toString (Num s) @ ''-'' @ toString (Num e)
                     @ ''/'' @ toString (Num (int (length content))))),
            (''Accept-Ranges'', HStr ''bytes''),
            (''Content-Length'', HNum (Num (e - s + 1))),
            (''Content-Type'', HStr (content_type v))] \<and>
         streamed (fst (stream_route st req)) = drop (nat s) content \<and>
         int (length (streamed (fst (stream_route st req)))) = int (length content) - s"
proof -
  have h: "h \<noteq> []" using assms(6) by (rule range_start_Num_nonempty)
  have s0: "0 \<le> s" using assms(6) by (rule range_start_nonneg)
  from assms(8,9) have se: "s \<le> e" by simp
  note sv = send_video_partial [OF h assms(6,7) s0 se assms(10), of v]
  have "length (drop (nat s) content) \<le> nat (e - s + 1)"
    using assms(8,9) s0 by auto
  then have tk: "take (nat (e - s + 1)) (drop (nat s) content) = drop (nat s) content"
    by simp
  have len: "int (length (drop (nat s) content)) = int (length content) - s"
    using assms(8) s0 by auto
  show ?thesis
    using stream_route_granted [OF assms(1-4)] len by (simp add: assms(5) sv tk)
qed

theorem stream_overlong_range_witness:
  "range_start ''bytes=50-149'' = Num 50 \<and>
   range_end ''bytes=50-149'' (int (length ex_content100)) = Num 149 \<and>
   head (fst (stream_route ex_store (ex_request id_v2 ex_student (Some ''bytes=50-149'')))) =
     [(''Content-Range'', HStr ''bytes 50-149/100''), (''Accept-Ranges'', HStr ''bytes''),
      (''Content-Length'', HNum (Num 100)), (''Content-Type'', HStr ''video/mp4'')] \<and>
   streamed (fst (stream_route ex_store (ex_request id_v2 ex_student (Some ''bytes=50-149'')))) =
     replicate 50 0x2B"
proof -
  have p: "range_start ''bytes=50-149'' = Num 50"
    "range_end ''bytes=50-149'' (int (length ex_content100)) = Num 149"
    by code_simp+
  have m: "(149::int) \<le> MAX_SAFE_INTEGER" by code_simp
  have l: "int (length ex_content100) = 100" by code_simp
  have t: "toString (Num 50) = ''50''" "toString (Num 149) = ''149''" "toString (Num 100) = ''100''"
    by code_simp+
  have ct: "content_type (ex_video ''/uploads/videos/b.mp4'' 100 None) = ''video/mp4''"
    by code_simp
  have d: "drop 50 ex_content100 = replicate 50 0x2B" by (simp add: ex_content100_def)
  show ?thesis
    using stream_overlong_range [of ex_store "ex_request id_v2 ex_student (Some ''bytes=50-149'')"
        "ex_video ''/uploads/videos/b.mp4'' 100 None" ex_course ex_content100
        "''bytes=50-149''" 50 149] p m l t ct d
    by (simp add: ex_store_def ex_request_def isEnrolled_def ex_student_def ex_course_def ex_video_def)
qed

section \<open>Ranges of an empty file\<close>

text \<open>
  For a file of length 0 the request \<open>bytes=0-5\<close> is answered with 206, where claim C5
  expects 416.
\<close>

theorem stream_zero_length_range_counterexample:
  "disk ex_store (filePath (the (videos ex_store id_v3))) = Some [] \<and>
   headers_range (ex_request id_v3 ex_student (Some ''bytes=0-5'')) = Some ''bytes=0-5'' \<and>
   status (fst (stream_route ex_store (ex_request id_v3 ex_student (Some ''bytes=0-5'')))) = 206 \<and>
   status (fst (stream_route ex_store (ex_request id_v3 ex_student (Some ''bytes=0-5'')))) \<noteq> 416"
  by code_simp

text \<open>
  Claim C5, amended. For a stored file of length 0, a request with a non-empty Range
  header streams no byte and is never answered with 416. When the file stream accepts
  the positions, a start up to \<open>2 ^ 53 - 1\<close> and an end that is either a number with
  \<open>start \<le> end \<le> 2 ^ 53 - 1\<close> or infinite (a run of digits beyond the doubles), the
  response is 206 with \<open>Content-Range: bytes start-end/0\<close> and a view is counted; in
  every other case the response is 500 with the store unchanged. A header that leaves
  the end out always gives 500, its end being \<open>- 1\<close>.
\<close>

theorem stream_zero_length_range:
  assumes "videos st (params_id req) = Some v" and "course v = Some c"
    and "isEnrolled c (req_user req) \<or> isAdmin (req_user req)"
    and "disk st (filePath v) = Some []"
    and "headers_range req = Some h" and "h \<noteq> []"
  shows "streamed (fst (stream_route st req)) = [] \<and>
         status (fst (stream_route st req)) \<noteq> 416 \<and>
         (if \<exists>s. range_start h = Num s \<and> s \<le> MAX_SAFE_INTEGER \<and>
                  (range_end h 0 = Infinity \<or>
                   (\<exists>e. range_end h 0 = Num e \<and> s \<le> e \<and> e \<le> MAX_SAFE_INTEGER))
          then status (fst (stream_route st req)) = 206 \<and>
               map_of (head (fst (stream_route st req))) ''Content-Range'' =
                 Some (HStr (''bytes '' @ toString (range_start h) @ ''-''
                             @ toString (range_end h 0) @ ''/0'')) \<and>
               snd (stream_route st req) = inc_views st (params_id req)
          else status (fst (stream_route st req)) = 500 \<and>
               head (fst (stream_route st req)) = [] \<and>
               snd (stream_route st req) = st) \<and>
         (\<not> truthy (part (range_parts h) 1) \<longrightarrow> status (fst (stream_route st req)) = 500)"
proof -
  have z: "toString (Num 0) = ''0''"
    by (simp add: digits10.simps digit_char_def)
  have omitted: "\<not> truthy (part (range_parts h) 1) \<Longrightarrow>
      \<not> (\<exists>s. range_start h = Num s \<and> s \<le> MAX_SAFE_INTEGER \<and>
                  (range_end h 0 = Infinity \<or>
                   (\<exists>e. range_end h 0 = Num e \<and> s \<le> e \<and> e \<le> MAX_SAFE_INTEGER)))"
    using range_start_nonneg [of h] by (auto simp: range_end_def)
  note r = stream_route_range [OF assms(1-6), simplified]
  show ?thesis
  proof (cases "\<exists>s. range_start h = Num s \<and> s \<le> MAX_SAFE_INTEGER \<and>
                  (range_end h 0 = Infinity \<or>
                   (\<exists>e. range_end h 0 = Num e \<and> s \<le> e \<and> e \<le> MAX_SAFE_INTEGER))")
    case False
    with r show ?thesis by simp
  next
    case True
    with omitted have "truthy (part (range_parts h) 1)" by blast
    with True r show ?thesis
      using z by (auto simp del: toString.simps)
  qed
qed

theorem stream_zero_length_range_witness:
  "status (fst (stream_route ex_store (ex_request id_v3 ex_student (Some ''bytes=0-5'')))) = 206 \<and>
   map_of (head (fst (stream_route ex_store (ex_request id_v3 ex_student (Some ''bytes=0-5'')))))
     ''Content-Range'' = Some (HStr ''bytes 0-5/0'') \<and>
   streamed (fst (stream_route ex_store (ex_request id_v3 ex_student (Some ''bytes=0-5'')))) = [] \<and>
   status (fst (stream_route ex_store (ex_request id_v3 ex_student (Some ''bytes=0-'')))) = 500 \<and>
   snd (stream_route ex_store (ex_request id_v3 ex_student (Some ''bytes=0-''))) = ex_store \<and>
   range_end (ex_range_open 0) 0 = Infinity \<and>
   status (fst (stream_route ex_store (ex_request id_v3 ex_student (Some (ex_range_open 0))))) = 206 \<and>
   map_of (head (fst (stream_route ex_store (ex_request id_v3 ex_student (Some (ex_range_open 0))))))
     ''Content-Range'' = Some (HStr ''bytes 0-Infinity/0'') \<and>
   streamed (fst (stream_route ex_store (ex_request id_v3 ex_student (Some (ex_range_open 0))))) = []"
proof -
  have p: "range_start ''bytes=0-5'' = Num 0" "range_end ''bytes=0-5'' 0 = Num 5"
    "range_start ''bytes=0-'' = Num 0" "range_end ''bytes=0-'' 0 = Num (- 1)"
    "\<not> truthy (part (range_parts ''bytes=0-'') 1)"
    "range_start (ex_range_open 0) = Num 0"
    by code_simp+
  have q: "range_end (ex_range_open 0) 0 = Infinity"
    by code_simp
  have ne: "ex_range_open 0 \<noteq> []"
    by (simp add: ex_range_open_def)
  have m: "(5::int) \<le> MAX_SAFE_INTEGER" "(0::int) \<le> MAX_SAFE_INTEGER"
    by code_simp+
  have t: "toString (Num 0) = ''0''" "toString (Num 5) = ''5''"
    "toString Infinity = ''Infinity''"
    by code_simp+
  show ?thesis
    using stream_zero_length_range [of ex_store "ex_request id_v3 ex_student (Some ''bytes=0-5'')"
        "ex_video ''/uploads/videos/c.mp4'' 0 (Some [])" ex_course "''bytes=0-5''"]
      stream_zero_length_range [of ex_store "ex_request id_v3 ex_student (Some ''bytes=0-'')"
        "ex_video ''/uploads/videos/c.mp4'' 0 (Some [])" ex_course "''bytes=0-''"]
      stream_zero_length_range [of ex_store "ex_request id_v3 ex_student (Some (ex_range_open 0))"
        "ex_video ''/uploads/videos/c.mp4'' 0 (Some [])" ex_course "ex_range_open 0"]
      p q ne m t
    by (simp add: ex_store_def ex_request_def isEnrolled_def ex_student_def ex_course_def
        ex_video_def del: toString.simps)
qed

section \<open>Reassembling a file from its ranges\<close>

text \<open>
  Claim C6. For a file of length \<open>L\<close> and requests sent one after the other whose
  ranges are inside the file and tile \<open>[0, L - 1]\<close> in order, each response is 206 and
  the bodies, concatenated in that order, are the bytes of the file. Every tiling has
  such requests, the headers written in decimal: \<open>asks_range_header\<close>.
\<close>

theorem stream_ranges_roundtrip:
  assumes "videos st vid = Some v" and "course v = Some c"
    and "disk st (filePath v) = Some content"
    and "int (length content) - 1 \<le> MAX_SAFE_INTEGER"
    and "tiles 0 (length content) rs"
    and "list_all2 (\<lambda>req r. params_id req = vid \<and>
                      (isEnrolled c (req_user req) \<or> isAdmin (req_user req)) \<and>
                      asks_range (length content) req r) reqs rs"
  shows "concat (map streamed (serve_all st reqs)) = content \<and>
         list_all (\<lambda>res. status res = 206) (serve_all st reqs)"
proof -
  have "\<exists>v. videos st vid = Some v \<and> course v = Some c \<and> disk st (filePath v) = Some content"
    using assms(1-3) by blast
  with assms(5,6) have "concat (map streamed (serve_all st reqs)) = drop 0 content \<and>
         list_all (\<lambda>res. status res = 206) (serve_all st reqs)"
    using assms(4) by (rule serve_all_tiles)
  then show ?thesis by simp
qed

theorem stream_ranges_roundtrip_witness:
  "tiles 0 (length ex_content10) [(0, 3), (4, 4), (5, 9)] \<and>
   concat (map streamed (serve_all ex_store
     [ex_request id_v1 ex_student (Some ''bytes=0-3''),
      ex_request id_v1 ex_student (Some ''bytes=4-4''),
      ex_request id_v1 ex_admin (Some ''bytes=5-'')])) = ex_content10"
proof -
  have t: "tiles 0 (length ex_content10) [(0, 3), (4, 4), (5, 9)]" by code_simp
  have m: "int (length ex_content10) - 1 \<le> MAX_SAFE_INTEGER" by code_simp
  have a: "asks_range (length ex_content10) (ex_request id_v1 ex_student (Some ''bytes=0-3'')) (0, 3)"
    "asks_range (length ex_content10) (ex_request id_v1 ex_student (Some ''bytes=4-4'')) (4, 4)"
    "asks_range (length ex_content10) (ex_request id_v1 ex_admin (Some ''bytes=5-'')) (5, 9)"
    by code_simp+
  show ?thesis
    using t m a stream_ranges_roundtrip [of ex_store "id_v1"
        "ex_video ''/uploads/videos/a.mp4'' 10 (Some ''video/webm'')" ex_course ex_content10
        "[(0, 3), (4, 4), (5, 9)]"
        "[ex_request id_v1 ex_student (Some ''bytes=0-3''),
          ex_request id_v1 ex_student (Some ''bytes=4-4''),
          ex_request id_v1 ex_admin (Some ''bytes=5-'')]"]
    by (simp add: ex_store_def ex_request_def isEnrolled_def isAdmin_def ex_student_def ex_admin_def ex_course_def ex_video_def)
qed

end
